theory Spec2Isabelle
  imports Main "HOL-Library.Word"
begin

section \<open>C types and constants of jalauditd.c\<close>

text \<open>
  \<open>int\<close> and \<open>unsigned int\<close> are 32-bit words, \<open>long\<close> is a 64-bit word. A word carries
  no sign: \<open>sint\<close> reads it as a C \<open>int\<close>, \<open>unat\<close> and the word order \<open>\<le>\<close> read it as
  \<open>unsigned int\<close>, so the cast \<open>(unsigned int)queue_max_length\<close> is the word itself.
\<close>

type_synonym c_int = "32 word"
type_synonym c_uint = "32 word"
type_synonym c_long = "64 word"

text \<open>The run status (lines 64-67).\<close>

definition RUN :: c_int where "RUN = 0"
definition STOP :: c_int where "STOP = 1"
definition RELOAD :: c_int where "RELOAD = 2"

text \<open>Constants of the libraries the program links: JALoP's \<open>JAL_OK\<close>, the signal numbers
  of \<open>signal.h\<close>, auparse's only callback event type.\<close>

definition JAL_OK :: c_int where "JAL_OK = 0"
definition SIGHUP :: c_int where "SIGHUP = 1"
definition SIGTERM :: c_int where "SIGTERM = 15"
definition AUPARSE_CB_EVENT_READY :: c_int where "AUPARSE_CB_EVENT_READY = 0"

section \<open>Data model\<close>

text \<open>The JALoP application metadata that \<open>audit_event_handle\<close> builds for one audit
  record: \<open>struct jalp_app_metadata\<close> with its logger metadata, whose structured data
  holds the parameter list (one key/value pair per field of the record).\<close>

type_synonym jalp_param = "string \<times> string"

record jalp_structured_data =
  sd_id :: string
  param_list :: "jalp_param list"

record jalp_logger_metadata =
  logger_name :: string
  sd :: jalp_structured_data
  message :: string

datatype jalp_metadata_type =
  JALP_METADATA_NONE | JALP_METADATA_SYSLOG | JALP_METADATA_LOGGER | JALP_METADATA_CUSTOM

record jalp_app_metadata =
  type :: jalp_metadata_type
  log :: jalp_logger_metadata

text \<open>One record of an audit event as auparse shows it: the field under the cursor after
  \<open>auparse_first_record\<close> / \<open>auparse_next_record\<close>, the fields that
  \<open>auparse_next_field\<close> still reaches, and the text of the record. An event is the
  record under the cursor and the records \<open>auparse_next_record\<close> still reaches.\<close>

record raw_record =
  first_field :: jalp_param
  next_fields :: "jalp_param list"
  record_text :: string

text \<open>Calls that leave the program, kept in the order they are made.\<close>

datatype thread = Send_ls_thread | Print_stats_thread

datatype effect =
    Syslog string
  | Jalp_audit jalp_app_metadata string c_int
  | Free_message jalp_app_metadata
  | Jalp_param_destroy jalp_app_metadata
  | Jalp_app_metadata_destroy jalp_app_metadata
  | Jalp_context_destroy
  | Config_destroy
  | Pthread_cond_timedwait nat
  | Pthread_cancel thread
  | Pthread_create thread

text \<open>
  The file-scope variables (lines 67-77) and the world around them. \<open>event_queue\<close> is the
  GQueue, head first. The three oracles are what the environment answers: whether each
  allocating library call succeeds (\<open>malloc_oracle\<close>, one entry per call, success when
  exhausted), how many iterations the sender thread completes while the producer sleeps
  in \<open>pthread_cond_timedwait\<close> (\<open>wake_oracle\<close>, one entry per wait, none when exhausted),
  and what \<open>jalp_audit\<close> returns (\<open>sink_oracle\<close>, one entry per call, \<open>JAL_OK\<close> when
  exhausted).
\<close>

record gstate =
  status :: c_int
  event_queue :: "jalp_app_metadata list"
  print_stats :: c_int
  print_stats_freq :: c_int
  queue_max_length :: c_int
  queue_max_length_seen :: c_uint
  effects :: "effect list"
  malloc_oracle :: "bool list"
  wake_oracle :: "nat list"
  sink_oracle :: "c_int list"

text \<open>The static initialisers of lines 67-77 and the \<open>g_queue_new()\<close> of line 345.\<close>

definition init_state :: gstate where
  "init_state = \<lparr>status = RUN, event_queue = [], print_stats = 0, print_stats_freq = 60,
     queue_max_length = 10000, queue_max_length_seen = 0, effects = [],
     malloc_oracle = [], wake_oracle = [], sink_oracle = []\<rparr>"

definition syslog :: "string \<Rightarrow> gstate \<Rightarrow> gstate" where
  "syslog fmt s = s\<lparr>effects := effects s @ [Syslog fmt]\<rparr>"

text \<open>An allocating library call: it takes the next answer of the oracle.\<close>

definition alloc :: "gstate \<Rightarrow> bool \<times> gstate" where
  "alloc s = (case malloc_oracle s of
       [] \<Rightarrow> (True, s)
     | ok # rest \<Rightarrow> (ok, s\<lparr>malloc_oracle := rest\<rparr>))"

section \<open>The GLib queue\<close>

text \<open>\<open>g_queue_get_length\<close> returns the queue's \<open>guint length\<close> field.\<close>

definition g_queue_get_length :: "'a list \<Rightarrow> c_uint" where
  "g_queue_get_length q = of_nat (length q)"

definition g_queue_push_tail :: "'a list \<Rightarrow> 'a \<Rightarrow> 'a list" where
  "g_queue_push_tail q x = q @ [x]"

text \<open>GLib's \<open>MAX(a, b)\<close> macro, here on two \<open>unsigned int\<close>.\<close>

definition MAX_uint :: "c_uint \<Rightarrow> c_uint \<Rightarrow> c_uint" where
  "MAX_uint a b = (if a > b then a else b)"

section \<open>The sender thread: \<open>send_messages_to_local_store\<close>\<close>

definition payload_str :: string where
  "payload_str = ''see app-meta''"

text \<open>\<open>jalp_audit\<close> is JALoP's; its return code is the environment's.\<close>

definition jalp_audit :: "jalp_app_metadata \<Rightarrow> string \<Rightarrow> gstate \<Rightarrow> c_int \<times> gstate" where
  "jalp_audit app_data payload s = (case sink_oracle s of
       [] \<Rightarrow> (JAL_OK,
              s\<lparr>effects := effects s @ [Jalp_audit app_data payload JAL_OK]\<rparr>)
     | rc # rest \<Rightarrow> (rc,
              s\<lparr>sink_oracle := rest,
                effects := effects s @ [Jalp_audit app_data payload rc]\<rparr>))"

text \<open>What one pass through the body of \<open>while(1)\<close> (lines 309-334) ends in: the thread
  sleeps in \<open>pthread_cond_wait\<close> on an empty queue, goes round again, or returns.\<close>

datatype loop_ctl = Waiting | Continue | Returned

definition send_iteration :: "gstate \<Rightarrow> loop_ctl \<times> gstate" where
  "send_iteration s = (case event_queue s of
       [] \<Rightarrow> (Waiting, s)
     | app_data # rest \<Rightarrow>
         (let s1 = s\<lparr>event_queue := rest\<rparr>;
              (rc, s2) = jalp_audit app_data payload_str s1;
              s3 = s2\<lparr>effects := effects s2 @
                     [Free_message app_data, Jalp_param_destroy app_data,
                      Jalp_app_metadata_destroy app_data]\<rparr>
          in if rc \<noteq> JAL_OK
             then (Returned,
                   (syslog ''failure sending JALP audit message, rc: %d'' s3)
                     \<lparr>status := RELOAD\<rparr>)
             else (Continue, s3)))"

text \<open>The thread function, run until it sleeps on the empty queue or returns.\<close>

function send_messages_to_local_store :: "gstate \<Rightarrow> loop_ctl \<times> gstate" where
  "send_messages_to_local_store s = (case send_iteration s of
       (Continue, s') \<Rightarrow> send_messages_to_local_store s'
     | (Waiting, s') \<Rightarrow> (Waiting, s')
     | (Returned, s') \<Rightarrow> (Returned, s'))"
  by pat_completeness auto

termination send_messages_to_local_store
  by (relation "measure (\<lambda>s. length (event_queue s))")
    (auto simp: send_iteration_def jalp_audit_def Let_def
      split: list.splits prod.splits if_splits)

declare send_messages_to_local_store.simps [simp del]

text \<open>The sender thread scheduled for at most \<open>k\<close> passes through its loop body.\<close>

primrec sender_runs :: "nat \<Rightarrow> gstate \<Rightarrow> gstate" where
  "sender_runs 0 s = s"
| "sender_runs (Suc k) s = (case send_iteration s of
       (Continue, s') \<Rightarrow> sender_runs k s'
     | (Waiting, s') \<Rightarrow> s'
     | (Returned, s') \<Rightarrow> s')"

section \<open>The producer side of the queue (lines 164-181 of \<open>audit_event_handle\<close>)\<close>

datatype enqueue_outcome = Accepted | Discarded

definition QUEUE_FULL_TIMEOUT :: nat where "QUEUE_FULL_TIMEOUT = 5"

text \<open>\<open>pthread_cond_timedwait\<close> on \<open>queue_full\<close>, with a deadline \<open>timeout\<close> seconds from
  now: it releases the mutex, so the sender thread runs meanwhile.\<close>

definition pthread_cond_timedwait :: "nat \<Rightarrow> gstate \<Rightarrow> gstate" where
  "pthread_cond_timedwait timeout s =
     (let s1 = s\<lparr>effects := effects s @ [Pthread_cond_timedwait timeout]\<rparr>
      in case wake_oracle s1 of
           [] \<Rightarrow> s1
         | k # rest \<Rightarrow> sender_runs k (s1\<lparr>wake_oracle := rest\<rparr>))"

definition push_event :: "jalp_app_metadata \<Rightarrow> gstate \<Rightarrow> gstate" where
  "push_event app_data s =
     (let q = g_queue_push_tail (event_queue s) app_data
      in s\<lparr>event_queue := q,
           queue_max_length_seen := MAX_uint (g_queue_get_length q) (queue_max_length_seen s)\<rparr>)"

text \<open>The result says whether the event was queued and whether the call waited.\<close>

definition enqueue :: "jalp_app_metadata \<Rightarrow> gstate \<Rightarrow> (enqueue_outcome \<times> bool) \<times> gstate" where
  "enqueue app_data s =
     (if g_queue_get_length (event_queue s) \<ge> queue_max_length s
      then (let s1 = pthread_cond_timedwait QUEUE_FULL_TIMEOUT s
            in if g_queue_get_length (event_queue s1) \<ge> queue_max_length s1
               then ((Discarded, True), s1)
               else ((Accepted, True), push_event app_data s1))
      else ((Accepted, False), push_event app_data s))"

section \<open>The auparse callback: \<open>audit_event_handle\<close>\<close>

text \<open>The application metadata of one record once lines 111-159 have all succeeded.\<close>

definition build_app_data :: "jalp_param list \<Rightarrow> string \<Rightarrow> jalp_app_metadata" where
  "build_app_data params text =
     \<lparr>type = JALP_METADATA_LOGGER,
      log = \<lparr>logger_name = ''auditd'',
             sd = \<lparr>sd_id = ''audit'', param_list = params\<rparr>,
             message = text\<rparr>\<rparr>"

text \<open>One pass through the body of the field loop (lines 140-155). \<open>None\<close> is
  \<open>goto out\<close>; otherwise the parameter list grown by the field.\<close>

definition field_body ::
  "jalp_param \<Rightarrow> jalp_param list \<Rightarrow> gstate \<Rightarrow> jalp_param list option \<times> gstate" where
  "field_body f params s = (case f of (key, value) \<Rightarrow>
     if key = ''type'' \<and> value = ''EOE'' then (None, s)
     else (case alloc s of
         (False, s1) \<Rightarrow> (None, syslog ''failure appending JALP parameter: %s %s'' s1)
       | (True, s1) \<Rightarrow> (Some (params @ [(key, value)]), s1)))"

text \<open>\<open>do { ... } while (auparse_next_field(au) > 0)\<close> (lines 139-156).\<close>

fun fields_loop ::
  "jalp_param \<Rightarrow> jalp_param list \<Rightarrow> jalp_param list \<Rightarrow> gstate
     \<Rightarrow> jalp_param list option \<times> gstate" where
  "fields_loop f [] params s = field_body f params s"
| "fields_loop f (g # gs) params s = (case field_body f params s of
       (None, s1) \<Rightarrow> (None, s1)
     | (Some params1, s1) \<Rightarrow> fields_loop g gs params1 s1)"

text \<open>The body of the record loop (lines 111-186). \<open>False\<close> is \<open>goto out\<close>, where the
  application metadata under construction, which never reached the queue, is released;
  \<open>True\<close> is reaching the loop condition of line 187.\<close>

definition record_body :: "raw_record \<Rightarrow> gstate \<Rightarrow> bool \<times> gstate" where
  "record_body r s = (case alloc s of
       (False, s1) \<Rightarrow> (False, syslog ''failure creating JALP application metadata'' s1)
     | (True, s1) \<Rightarrow> (case alloc s1 of
       (False, s2) \<Rightarrow> (False, syslog ''failure creating JALP logger metadata'' s2)
     | (True, s2) \<Rightarrow> (case alloc s2 of
       (False, s3) \<Rightarrow> (False, syslog ''failure strduping logger_name'' s3)
     | (True, s3) \<Rightarrow> (case alloc s3 of
       (False, s4) \<Rightarrow> (False, syslog ''failure appending JALP audit structured data'' s4)
     | (True, s4) \<Rightarrow> (case fields_loop (first_field r) (next_fields r) [] s4 of
       (None, s5) \<Rightarrow> (False, s5)
     | (Some params, s5) \<Rightarrow> (case alloc s5 of
       (False, s6) \<Rightarrow> (False, syslog ''failure retrieving auparse record text'' s6)
     | (True, s6) \<Rightarrow> (case enqueue (build_app_data params (record_text r)) s6 of
       ((Discarded, waited), s7) \<Rightarrow> (False, s7)
     | ((Accepted, waited), s7) \<Rightarrow> (True, s7))))))))"

text \<open>\<open>do { ... } while (auparse_next_record(au) > 0)\<close> (lines 110-187).\<close>

fun records_loop :: "raw_record \<Rightarrow> raw_record list \<Rightarrow> gstate \<Rightarrow> bool \<times> gstate" where
  "records_loop r [] s = record_body r s"
| "records_loop r (r' # rs) s = (case record_body r s of
       (False, s1) \<Rightarrow> (False, s1)
     | (True, s1) \<Rightarrow> records_loop r' rs s1)"

text \<open>An event handed to the callback: its first record and the records after it.\<close>

type_synonym auparse_state_t = "raw_record \<times> raw_record list"

definition audit_event_handle :: "auparse_state_t \<Rightarrow> c_int \<Rightarrow> gstate \<Rightarrow> gstate" where
  "audit_event_handle au event_type s =
     (if event_type \<noteq> AUPARSE_CB_EVENT_READY then s
      else snd (records_loop (fst au) (snd au) s))"

section \<open>Configuration: \<open>config_load\<close> and \<open>context_init\<close>\<close>

text \<open>libconfig's truth values, which \<open>config_read_file\<close> returns.\<close>

definition CONFIG_TRUE :: c_int where "CONFIG_TRUE = 1"
definition CONFIG_FALSE :: c_int where "CONFIG_FALSE = 0"

definition SOCKET :: string where "SOCKET = ''socket''"
definition SCHEMAS :: string where "SCHEMAS = ''schemas''"
definition KEYPATH :: string where "KEYPATH = ''keypath''"
definition CERTPATH :: string where "CERTPATH = ''certpath''"
definition PRINTSTATS :: string where "PRINTSTATS = ''printstats''"
definition PRINTSTATSFREQ :: string where "PRINTSTATSFREQ = ''printstatsfreq''"
definition QUEUEMAXLENGTH :: string where "QUEUEMAXLENGTH = ''queuemaxlength''"

definition INT_MAX :: int where "INT_MAX = 2147483647"

text \<open>
  What libconfig answers about the file at \<open>CONFIG_PATH\<close> in one load: the return code
  of \<open>config_read_file\<close> and the settings its lookups find. A lookup that finds nothing
  is \<open>None\<close>: libconfig then leaves the caller's variable as it was.
  \<open>config_lookup_int\<close> stores through an \<open>int *\<close> from libconfig 1.4 on and through a
  \<open>long *\<close> before, hence the two maps.
\<close>

record config_t =
  read_rc :: c_int
  int_settings :: "string \<rightharpoonup> c_int"
  long_settings :: "string \<rightharpoonup> c_long"
  string_settings :: "string \<rightharpoonup> string"

definition config_lookup_int :: "config_t \<Rightarrow> string \<Rightarrow> c_int \<Rightarrow> c_int" where
  "config_lookup_int config path target =
     (case int_settings config path of None \<Rightarrow> target | Some v \<Rightarrow> v)"

definition config_lookup_long :: "config_t \<Rightarrow> string \<Rightarrow> c_long \<Rightarrow> c_long" where
  "config_lookup_long config path target =
     (case long_settings config path of None \<Rightarrow> target | Some v \<Rightarrow> v)"

text \<open>\<open>config_load\<close> as compiled against libconfig 1.4 or later (lines 193-214, 240-241).
  The argument is the \<open>config_t *\<close>, \<open>None\<close> for a null pointer.\<close>

definition config_load :: "config_t option \<Rightarrow> gstate \<Rightarrow> c_int \<times> gstate" where
  "config_load config s = (case config of
       None \<Rightarrow> (- 1, s)
     | Some c \<Rightarrow>
         if read_rc c \<noteq> CONFIG_TRUE
         then (read_rc c, syslog ''failure reading config file, rc: %d, %s, line: %d'' s)
         else (read_rc c,
               s\<lparr>print_stats := config_lookup_int c PRINTSTATS (print_stats s),
                 print_stats_freq := config_lookup_int c PRINTSTATSFREQ (print_stats_freq s),
                 queue_max_length := config_lookup_int c QUEUEMAXLENGTH (queue_max_length s)\<rparr>))"

text \<open>The same against an older libconfig (lines 216-236): each setting goes through a
  \<open>long\<close> that starts as the current value and is stored back unless it exceeds
  \<open>INT_MAX\<close>.\<close>

definition config_load_legacy :: "config_t option \<Rightarrow> gstate \<Rightarrow> c_int \<times> gstate" where
  "config_load_legacy config s = (case config of
       None \<Rightarrow> (- 1, s)
     | Some c \<Rightarrow>
         if read_rc c \<noteq> CONFIG_TRUE
         then (read_rc c, syslog ''failure reading config file, rc: %d, %s, line: %d'' s)
         else
          (let print_stats_long = config_lookup_long c PRINTSTATS (scast (print_stats s));
               print_stats_freq_long =
                 config_lookup_long c PRINTSTATSFREQ (scast (print_stats_freq s));
               queue_max_length_long =
                 config_lookup_long c QUEUEMAXLENGTH (scast (queue_max_length s));
               s1 = (if sint print_stats_long > INT_MAX
                     then syslog ''print_stats in config file is too big.  Using default value'' s
                     else s\<lparr>print_stats := scast print_stats_long\<rparr>);
               s2 = (if sint print_stats_freq_long > INT_MAX
                     then syslog
                       ''print_stats_freq in config file is too big.  Using default value'' s1
                     else s1\<lparr>print_stats_freq := scast print_stats_freq_long\<rparr>);
               s3 = (if sint queue_max_length_long > INT_MAX
                     then syslog
                       ''queue_max_length in config file is too big.  Using default value'' s2
                     else s2\<lparr>queue_max_length := scast queue_max_length_long\<rparr>)
           in (read_rc c, s3)))"

text \<open>What the environment answers during one pass through the load block of \<open>main\<close>:
  the configuration file, whether \<open>jalp_context_create\<close> returns a context, and the
  return codes of the three JALoP calls of \<open>context_init\<close>.\<close>

record load_env =
  config_file :: config_t
  jalp_context_create_ok :: bool
  jalp_context_init_rc :: c_int
  jalp_context_load_pem_rsa_rc :: c_int
  jalp_context_load_pem_cert_rc :: c_int

text \<open>The JALoP context: what \<open>context_init\<close> gave it.\<close>

record jalp_context =
  ctx_path :: "string option"
  ctx_schema_root :: "string option"
  ctx_key :: "string option"
  ctx_cert :: "string option"

definition jalp_context_create :: jalp_context where
  "jalp_context_create =
     \<lparr>ctx_path = None, ctx_schema_root = None, ctx_key = None, ctx_cert = None\<rparr>"

text \<open>\<open>context_init\<close> (lines 244-281).\<close>

definition context_init ::
  "config_t option \<Rightarrow> load_env \<Rightarrow> jalp_context \<Rightarrow> c_int \<times> jalp_context" where
  "context_init config env ctx = (case config of
       None \<Rightarrow> (- 1, ctx)
     | Some c \<Rightarrow>
        (let sockpath = string_settings c SOCKET;
             schemas = string_settings c SCHEMAS;
             keypath = string_settings c KEYPATH;
             certpath = string_settings c CERTPATH;
             rc = jalp_context_init_rc env;
             ctx1 = ctx\<lparr>ctx_path := sockpath, ctx_schema_root := schemas\<rparr>
         in if rc \<noteq> JAL_OK then (rc, ctx1)
            else (case keypath of
                None \<Rightarrow>
                  (case certpath of
                     None \<Rightarrow> (rc, ctx1)
                   | Some cert \<Rightarrow>
                       (jalp_context_load_pem_cert_rc env, ctx1\<lparr>ctx_cert := certpath\<rparr>))
              | Some key \<Rightarrow>
                  (let rc1 = jalp_context_load_pem_rsa_rc env;
                       ctx2 = ctx1\<lparr>ctx_key := keypath\<rparr>
                   in if rc1 \<noteq> JAL_OK then (rc1, ctx2)
                      else (case certpath of
                          None \<Rightarrow> (rc1, ctx2)
                        | Some cert \<Rightarrow>
                            (jalp_context_load_pem_cert_rc env,
                             ctx2\<lparr>ctx_cert := certpath\<rparr>))))))"

section \<open>The main thread: \<open>sig_handle\<close> and \<open>main\<close>\<close>

definition sig_handle :: "c_int \<Rightarrow> gstate \<Rightarrow> gstate" where
  "sig_handle sig s =
     (if sig = SIGTERM then s\<lparr>status := STOP\<rparr>
      else if sig = SIGHUP then s\<lparr>status := RELOAD\<rparr>
      else s)"

definition emit :: "effect \<Rightarrow> gstate \<Rightarrow> gstate" where
  "emit e s = s\<lparr>effects := effects s @ [e]\<rparr>"

text \<open>The local variables of \<open>main\<close> that outlive a statement: \<open>rc\<close>, \<open>ctx\<close> (\<open>None\<close> for
  the null pointer) and \<open>read_size\<close>.\<close>

record main_locals =
  main_rc :: c_int
  main_ctx :: "jalp_context option"
  read_size :: c_int

text \<open>How a block of \<open>main\<close> ends: by \<open>goto out\<close> or by reaching its last line.\<close>

datatype 'a block_end = Goto_out 'a | Falls_through 'a

text \<open>The load block (lines 377-411), entered when \<open>status == RELOAD || !ctx\<close>.\<close>

definition load_block ::
  "load_env \<Rightarrow> main_locals \<times> gstate \<Rightarrow> (main_locals \<times> gstate) block_end" where
  "load_block env ls = (case ls of (l, s) \<Rightarrow>
     (let s1 = syslog ''loading config'' s;
          (rc1, s2) = config_load (Some (config_file env)) s1
      in if sint rc1 < 0
         then Goto_out (l\<lparr>main_rc := rc1\<rparr>, syslog ''failure reloading config, rc: %d'' s2)
         else
          (let s3 = emit Jalp_context_destroy s2
           in if \<not> jalp_context_create_ok env
              then Goto_out (l\<lparr>main_rc := - 1, main_ctx := None\<rparr>,
                             syslog ''failure creating JALP context'' s3)
              else
               (let (rc2, ctx) = context_init (Some (config_file env)) env jalp_context_create;
                    l2 = l\<lparr>main_rc := rc2, main_ctx := Some ctx\<rparr>
                in if sint rc2 < 0
                   then Goto_out (l2, syslog ''failure resetting JALP context, rc: %d'' s3)
                   else
                    (let s4 = emit Config_destroy s3;
                         s5 = (if status s4 = RELOAD
                               then emit (Pthread_cancel Send_ls_thread)
                                      (if print_stats s4 \<noteq> 0
                                       then emit (Pthread_cancel Print_stats_thread) s4
                                       else s4)
                               else s4);
                         s6 = emit (Pthread_create Send_ls_thread) s5;
                         s7 = (if print_stats s6 \<noteq> 0
                               then emit (Pthread_create Print_stats_thread) s6
                               else s6)
                     in Falls_through (l2, s7\<lparr>status := RUN\<rparr>))))))"

text \<open>\<open>auparse_feed\<close>, \<open>auparse_feed_age_events\<close> and \<open>auparse_flush_feed\<close> call the
  callback once for each event they complete.\<close>

definition auparse_callbacks :: "auparse_state_t list \<Rightarrow> gstate \<Rightarrow> gstate" where
  "auparse_callbacks evs s =
     fold (\<lambda>au. audit_event_handle au AUPARSE_CB_EVENT_READY) evs s"

text \<open>
  What the environment does during one pass through the inner loop (lines 413-442):
  whether auparse holds unflushed data, what \<open>select\<close> returns, a signal delivered and
  the passes the sender thread completes while \<open>main\<close> sleeps in \<open>select\<close>, the events
  that ageing completes, for each \<open>read\<close> that returns data the events that feeding it
  completes, and whether the \<open>read\<close> that ends the read loop returns 0 (end of file)
  or \<open>-1\<close>.
\<close>

record io_event =
  feed_has_data :: bool
  select_rc :: c_int
  sender_passes :: nat
  signal :: "c_int option"
  aged_events :: "auparse_state_t list"
  reads :: "auparse_state_t list list"
  read_eof :: bool

definition inner_iteration :: "io_event \<Rightarrow> main_locals \<times> gstate \<Rightarrow> main_locals \<times> gstate" where
  "inner_iteration ev ls = (case ls of (l, s) \<Rightarrow>
     (let s1 = sender_runs (sender_passes ev) s;
          s2 = (case signal ev of None \<Rightarrow> s1 | Some sig \<Rightarrow> sig_handle sig s1);
          rc = select_rc ev;
          s3 = (if rc = 0 \<and> feed_has_data ev then auparse_callbacks (aged_events ev) s2
                else s2);
          l1 = l\<lparr>main_rc := rc\<rparr>
      in if status s3 = RUN \<and> 0 < sint rc
         then (l1\<lparr>read_size := (if read_eof ev then 0 else - 1)\<rparr>,
               fold auparse_callbacks (reads ev) s3)
         else (l1, s3)))"

text \<open>Standard input once the events of the environment are used up: at end of file,
  so \<open>select\<close> reports it readable and \<open>read\<close> returns 0.\<close>

definition eof_event :: io_event where
  "eof_event = \<lparr>feed_has_data = False, select_rc = 1, sender_passes = 0, signal = None,
     aged_events = [], reads = [], read_eof = True\<rparr>"

text \<open>The end of a pass through the inner loop (lines 438-442): the \<open>break\<close> at end of
  file, which sets \<open>rc = 0\<close>, or the loop condition \<open>status == RUN\<close>. \<open>True\<close> is going
  round again.\<close>

definition inner_iteration_end :: "main_locals \<times> gstate \<Rightarrow> bool \<times> main_locals \<times> gstate" where
  "inner_iteration_end ls = (case ls of (l, s) \<Rightarrow>
     if read_size l = 0 then (False, l\<lparr>main_rc := 0\<rparr>, s)
     else (status s = RUN, l, s))"

text \<open>The inner loop. With the events used up a pass meets end of file: it breaks when
  the status is \<open>RUN\<close> and fails the loop condition otherwise, so it is the last.\<close>

fun inner_loop ::
  "io_event list \<Rightarrow> main_locals \<times> gstate \<Rightarrow> io_event list \<times> main_locals \<times> gstate" where
  "inner_loop [] ls = ([], snd (inner_iteration_end (inner_iteration eof_event ls)))"
| "inner_loop (ev # evs) ls = (case inner_iteration_end (inner_iteration ev ls) of
       (True, ls1) \<Rightarrow> inner_loop evs ls1
     | (False, ls1) \<Rightarrow> (evs, ls1))"

definition default_load_env :: load_env where
  "default_load_env =
     \<lparr>config_file = \<lparr>read_rc = CONFIG_TRUE, int_settings = Map.empty,
                      long_settings = Map.empty, string_settings = Map.empty\<rparr>,
      jalp_context_create_ok = True, jalp_context_init_rc = JAL_OK,
      jalp_context_load_pem_rsa_rc = JAL_OK, jalp_context_load_pem_cert_rc = JAL_OK\<rparr>"

text \<open>The outer loop (lines 373-443), with fuel for its passes: \<open>None\<close> is not having
  left the loop when the fuel is spent. Each entry of the load block takes the next
  \<open>load_env\<close> (\<open>default_load_env\<close> when they are used up).\<close>

fun main_loop ::
  "nat \<Rightarrow> load_env list \<Rightarrow> io_event list \<Rightarrow> main_locals \<times> gstate
     \<Rightarrow> (main_locals \<times> gstate) block_end option" where
  "main_loop 0 envs evs ls = None"
| "main_loop (Suc n) envs evs ls = (case ls of (l, s) \<Rightarrow>
     (let l0 = l\<lparr>read_size := 1\<rparr>;
          loading = (status s = RELOAD \<or> main_ctx l0 = None);
          envs1 = (if loading then tl envs else envs);
          loaded = (if loading
                    then load_block (case envs of [] \<Rightarrow> default_load_env | env # _ \<Rightarrow> env)
                           (l0, s)
                    else Falls_through (l0, s))
      in case loaded of
           Goto_out ls1 \<Rightarrow> Some (Goto_out ls1)
         | Falls_through ls1 \<Rightarrow>
             (case inner_loop evs ls1 of (evs1, l2, s2) \<Rightarrow>
                if status s2 = RUN \<or> status s2 = RELOAD
                then main_loop n envs1 evs1 (l2, s2)
                else Some (Falls_through (l2, s2)))))"

text \<open>What the environment answers to \<open>main\<close>.\<close>

record main_env =
  jalp_init_rc :: c_int
  auparse_init_ok :: bool
  loads :: "load_env list"
  events :: "io_event list"
  flushed_events :: "auparse_state_t list"

text \<open>The label \<open>out\<close> (lines 446-452): the exit code is \<open>rc\<close>.\<close>

definition main_out :: "main_locals \<times> gstate \<Rightarrow> c_int \<times> gstate" where
  "main_out ls = (case ls of (l, s) \<Rightarrow> (main_rc l, emit Jalp_context_destroy s))"

text \<open>\<open>main\<close> (lines 339-453) from the state \<open>s0\<close> of the file-scope variables; the result
  is the exit code and the final state, \<open>None\<close> while the outer loop has not ended.\<close>

definition main :: "nat \<Rightarrow> main_env \<Rightarrow> gstate \<Rightarrow> (c_int \<times> gstate) option" where
  "main fuel env s0 =
     (let l0 = \<lparr>main_rc = jalp_init_rc env, main_ctx = None, read_size = 1\<rparr>
      in if jalp_init_rc env \<noteq> JAL_OK
         then Some (main_out (l0, syslog ''failure initializing JALP, rc: %d'' s0))
         else if \<not> auparse_init_ok env
         then Some (main_out (l0\<lparr>main_rc := - 1\<rparr>, syslog ''failure initializing auparse'' s0))
         else (case main_loop fuel (loads env) (events env) (l0, s0) of
             None \<Rightarrow> None
           | Some (Goto_out ls) \<Rightarrow> Some (main_out ls)
           | Some (Falls_through (l, s)) \<Rightarrow>
               Some (main_out (l, auparse_callbacks (flushed_events env) s))))"

section \<open>Runs of the queue and what they show\<close>

text \<open>The events handed to \<open>jalp_audit\<close>, in the order of the calls. The sender thread
  hands over each event right after \<open>g_queue_pop_head\<close> returned it, so this is also
  the order in which events left the queue.\<close>

fun submitted :: "effect list \<Rightarrow> jalp_app_metadata list" where
  "submitted [] = []"
| "submitted (Jalp_audit a p rc # es) = a # submitted es"
| "submitted (e # es) = submitted es"

text \<open>One enqueue after the other, with the result of each.\<close>

primrec enqueue_all ::
  "jalp_app_metadata list \<Rightarrow> gstate \<Rightarrow> (enqueue_outcome \<times> bool) list \<times> gstate" where
  "enqueue_all [] s = ([], s)"
| "enqueue_all (e # es) s = (case enqueue e s of (r, s1) \<Rightarrow>
     (case enqueue_all es s1 of (rs, s2) \<Rightarrow> (r # rs, s2)))"

text \<open>Sample records and events for the concrete runs.\<close>

definition syscall_record :: raw_record where
  "syscall_record = \<lparr>first_field = (''type'', ''SYSCALL''),
     next_fields = [(''uid'', ''1000'')], record_text = ''type=SYSCALL uid=1000''\<rparr>"

definition path_record :: raw_record where
  "path_record = \<lparr>first_field = (''type'', ''PATH''),
     next_fields = [(''name'', ''/etc/passwd'')], record_text = ''type=PATH name=/etc/passwd''\<rparr>"

definition eoe_record :: raw_record where
  "eoe_record = \<lparr>first_field = (''type'', ''EOE''), next_fields = [],
     record_text = ''type=EOE''\<rparr>"

definition syscall_event :: jalp_app_metadata where
  "syscall_event =
     build_app_data [(''type'', ''SYSCALL''), (''uid'', ''1000'')] ''type=SYSCALL uid=1000''"

definition path_event :: jalp_app_metadata where
  "path_event =
     build_app_data [(''type'', ''PATH''), (''name'', ''/etc/passwd'')]
       ''type=PATH name=/etc/passwd''"

definition cwd_event :: jalp_app_metadata where
  "cwd_event = build_app_data [(''type'', ''CWD''), (''cwd'', ''/root'')] ''type=CWD cwd=/root''"

text \<open>
  Interleavings of the producer and the sender thread. Both work on the queue with the
  mutex held, so a run is a sequence of whole steps: an enqueue by the producer (lines
  164-181; the sender's passes during its timed wait come from \<open>wake_oracle\<close>) or one
  pass of the sender thread through its loop body (a dequeue followed by the submission;
  on an empty queue the sender sleeps and nothing changes).
\<close>

datatype queue_op = Enqueue jalp_app_metadata | Dequeue

definition apply_op :: "queue_op \<Rightarrow> gstate \<Rightarrow> gstate" where
  "apply_op x s = (case x of
       Enqueue e \<Rightarrow> snd (enqueue e s)
     | Dequeue \<Rightarrow> snd (send_iteration s))"

definition run_ops :: "queue_op list \<Rightarrow> gstate \<Rightarrow> gstate" where
  "run_ops ops s = fold apply_op ops s"

text \<open>The bounds of the queue: its length is at most the capacity and at most the
  high-water mark.\<close>

definition queue_inv :: "gstate \<Rightarrow> bool" where
  "queue_inv s = (length (event_queue s) \<le> unat (queue_max_length s)
     \<and> length (event_queue s) \<le> unat (queue_max_length_seen s))"

text \<open>The events of a run whose enqueue was accepted, in the order of the enqueues.\<close>

fun accepted :: "queue_op list \<Rightarrow> gstate \<Rightarrow> jalp_app_metadata list" where
  "accepted [] s = []"
| "accepted (Enqueue e # ops) s = (case enqueue e s of
       ((Accepted, waited), s1) \<Rightarrow> e # accepted ops s1
     | ((Discarded, waited), s1) \<Rightarrow> accepted ops s1)"
| "accepted (Dequeue # ops) s = accepted ops (snd (send_iteration s))"

text \<open>What the sender thread released, and which submissions failed, in order.\<close>

fun freed_messages :: "effect list \<Rightarrow> jalp_app_metadata list" where
  "freed_messages [] = []"
| "freed_messages (Free_message a # es) = a # freed_messages es"
| "freed_messages (e # es) = freed_messages es"

fun destroyed_params :: "effect list \<Rightarrow> jalp_app_metadata list" where
  "destroyed_params [] = []"
| "destroyed_params (Jalp_param_destroy a # es) = a # destroyed_params es"
| "destroyed_params (e # es) = destroyed_params es"

fun destroyed_app_data :: "effect list \<Rightarrow> jalp_app_metadata list" where
  "destroyed_app_data [] = []"
| "destroyed_app_data (Jalp_app_metadata_destroy a # es) = a # destroyed_app_data es"
| "destroyed_app_data (e # es) = destroyed_app_data es"

fun failed_submissions :: "effect list \<Rightarrow> jalp_app_metadata list" where
  "failed_submissions [] = []"
| "failed_submissions (Jalp_audit a p rc # es) =
     (if rc \<noteq> JAL_OK then a # failed_submissions es else failed_submissions es)"
| "failed_submissions (e # es) = failed_submissions es"

definition failure_effects :: "jalp_app_metadata \<Rightarrow> c_int \<Rightarrow> effect list" where
  "failure_effects a rc =
     [Jalp_audit a payload_str rc, Free_message a, Jalp_param_destroy a,
      Jalp_app_metadata_destroy a, Syslog ''failure sending JALP audit message, rc: %d'']"

text \<open>The return code the next call of \<open>jalp_audit\<close> gets.\<close>

definition next_rc :: "gstate \<Rightarrow> c_int" where
  "next_rc s = (case sink_oracle s of [] \<Rightarrow> JAL_OK | rc # rest \<Rightarrow> rc)"

text \<open>What a run of the sender thread from \<open>s\<close> with result \<open>res\<close> must satisfy (the
  statement of claim C7 below).\<close>

definition sender_ok :: "gstate \<Rightarrow> loop_ctl \<times> gstate \<Rightarrow> bool" where
  "sender_ok s res = (case res of (r, s') \<Rightarrow>
     submitted (effects s') @ event_queue s' = submitted (effects s) @ event_queue s
   \<and> freed_messages (effects s') @ event_queue s' = freed_messages (effects s) @ event_queue s
   \<and> destroyed_params (effects s') @ event_queue s'
       = destroyed_params (effects s) @ event_queue s
   \<and> destroyed_app_data (effects s') @ event_queue s'
       = destroyed_app_data (effects s) @ event_queue s
   \<and> (r = Waiting \<and> event_queue s' = [] \<and> status s' = status s
        \<and> failed_submissions (effects s') = failed_submissions (effects s)
      \<or> r = Returned \<and> status s' = RELOAD
        \<and> (\<exists>a rc pre. rc \<noteq> JAL_OK \<and> effects s' = pre @ failure_effects a rc
              \<and> failed_submissions (effects s') = failed_submissions (effects s) @ [a])))"

text \<open>States and runs for the concrete instances.\<close>

definition tiny_queue :: gstate where
  "tiny_queue = init_state\<lparr>queue_max_length := 1\<rparr>"

definition sample_ops :: "queue_op list" where
  "sample_ops = [Enqueue syscall_event, Enqueue path_event, Dequeue, Enqueue cwd_event, Dequeue]"

definition failing_sink :: gstate where
  "failing_sink = init_state\<lparr>event_queue := [syscall_event, path_event, cwd_event],
     sink_oracle := [JAL_OK, - 1]\<rparr>"

text \<open>The record of claim C1: the end-of-event marker is its third field.\<close>

definition marked_record :: raw_record where
  "marked_record = \<lparr>first_field = (''type'', ''SYSCALL''),
     next_fields = [(''uid'', ''1000''), (''type'', ''EOE'')],
     record_text = ''type=SYSCALL uid=1000 type=EOE''\<rparr>"

text \<open>Worlds in which an allocation fails: the first of all, or the first of the second
  record (the first record, with two fields, makes seven allocating calls).\<close>

definition failing_alloc :: gstate where
  "failing_alloc = init_state\<lparr>malloc_oracle := [False]\<rparr>"

definition late_failing_alloc :: gstate where
  "late_failing_alloc =
     init_state\<lparr>malloc_oracle := [True, True, True, True, True, True, True, False]\<rparr>"

text \<open>The state a block of \<open>main\<close> ends in, whichever way it ends; the locals of \<open>main\<close>
  when the outer loop is first entered; a configuration file that sets the queue
  capacity only; a load whose configuration file cannot be read; and an environment in
  which everything succeeds and standard input is at end of file from the start.\<close>

definition block_state :: "(main_locals \<times> gstate) block_end \<Rightarrow> gstate" where
  "block_state b = (case b of Goto_out ls \<Rightarrow> snd ls | Falls_through ls \<Rightarrow> snd ls)"

definition start_locals :: main_locals where
  "start_locals = \<lparr>main_rc = JAL_OK, main_ctx = None, read_size = 1\<rparr>"

definition capacity_only_config :: config_t where
  "capacity_only_config = \<lparr>read_rc = CONFIG_TRUE,
     int_settings = [QUEUEMAXLENGTH \<mapsto> 500], long_settings = [QUEUEMAXLENGTH \<mapsto> 500],
     string_settings = Map.empty\<rparr>"

definition unreadable_config_env :: load_env where
  "unreadable_config_env = default_load_env\<lparr>config_file :=
     \<lparr>read_rc = CONFIG_FALSE, int_settings = Map.empty, long_settings = Map.empty,
      string_settings = Map.empty\<rparr>\<rparr>"

definition eof_main_env :: main_env where
  "eof_main_env = \<lparr>jalp_init_rc = JAL_OK, auparse_init_ok = True, loads = [], events = [],
     flushed_events = []\<rparr>"

text \<open>Two passes of the inner loop: \<open>select\<close> interrupted by \<open>SIGTERM\<close>, and \<open>select\<close>
  timing out with data still held by auparse.\<close>

definition sigterm_event :: io_event where
  "sigterm_event = \<lparr>feed_has_data = False, select_rc = - 1, sender_passes = 0,
     signal = Some SIGTERM, aged_events = [], reads = [], read_eof = False\<rparr>"

definition timeout_event :: io_event where
  "timeout_event = \<lparr>feed_has_data = True, select_rc = 0, sender_passes = 0,
     signal = None, aged_events = [], reads = [], read_eof = False\<rparr>"

section \<open>Lemmas on the queue\<close>

lemma submitted_append: "submitted (xs @ ys) = submitted xs @ submitted ys"
  by (induction xs rule: submitted.induct) auto

lemma push_event_simps:
  "event_queue (push_event e s) = event_queue s @ [e]"
  "queue_max_length (push_event e s) = queue_max_length s"
  "wake_oracle (push_event e s) = wake_oracle s"
  "effects (push_event e s) = effects s"
  "status (push_event e s) = status s"
  by (simp_all add: push_event_def g_queue_push_tail_def Let_def)

text \<open>Below the capacity the length of the queue fits an \<open>unsigned int\<close>, and the test of
  line 166 fails.\<close>

lemma enqueue_room:
  assumes "length (event_queue s) < unat (queue_max_length s)"
  shows "enqueue e s = ((Accepted, False), push_event e s)"
proof -
  have "unat (queue_max_length s) < 2 ^ 32"
    using unsigned_less [of "queue_max_length s"] by simp
  with assms have "unat (g_queue_get_length (event_queue s)) = length (event_queue s)"
    by (simp add: g_queue_get_length_def unat_of_nat)
  with assms have "\<not> queue_max_length s \<le> g_queue_get_length (event_queue s)"
    by (simp add: word_le_nat_alt)
  then show ?thesis by (simp add: enqueue_def)
qed

lemma enqueue_full_no_sender:
  assumes "length (event_queue s) = unat (queue_max_length s)" and "wake_oracle s = []"
  shows "enqueue e s = ((Discarded, True),
           s\<lparr>effects := effects s @ [Pthread_cond_timedwait QUEUE_FULL_TIMEOUT]\<rparr>)"
proof -
  have "unat (queue_max_length s) < 2 ^ 32"
    using unsigned_less [of "queue_max_length s"] by simp
  with assms have "unat (g_queue_get_length (event_queue s)) = length (event_queue s)"
    by (simp add: g_queue_get_length_def unat_of_nat)
  with assms have "queue_max_length s \<le> g_queue_get_length (event_queue s)"
    by (simp add: word_le_nat_alt)
  with assms show ?thesis by (simp add: enqueue_def pthread_cond_timedwait_def Let_def)
qed

lemma enqueue_all_room:
  "length (event_queue s) + length es \<le> unat (queue_max_length s) \<Longrightarrow>
   fst (enqueue_all es s) = replicate (length es) (Accepted, False)
   \<and> event_queue (snd (enqueue_all es s)) = event_queue s @ es
   \<and> queue_max_length (snd (enqueue_all es s)) = queue_max_length s
   \<and> wake_oracle (snd (enqueue_all es s)) = wake_oracle s
   \<and> effects (snd (enqueue_all es s)) = effects s"
proof (induction es arbitrary: s)
  case Nil
  then show ?case by simp
next
  case (Cons e es)
  then have room: "length (event_queue s) < unat (queue_max_length s)" by simp
  have "length (event_queue (push_event e s)) + length es
          \<le> unat (queue_max_length (push_event e s))"
    using Cons.prems by (simp add: push_event_simps)
  from Cons.IH [OF this] show ?case
    by (simp add: enqueue_room [OF room] push_event_simps case_prod_beta)
qed

lemma send_iteration_frame:
  "queue_max_length (snd (send_iteration s)) = queue_max_length s"
  "queue_max_length_seen (snd (send_iteration s)) = queue_max_length_seen s"
  "length (event_queue (snd (send_iteration s))) \<le> length (event_queue s)"
  "submitted (effects (snd (send_iteration s))) @ event_queue (snd (send_iteration s))
     = submitted (effects s) @ event_queue s"
  by (simp_all add: send_iteration_def jalp_audit_def syslog_def Let_def submitted_append
      split: list.split)

lemma sender_runs_frame:
  "queue_max_length (sender_runs k s) = queue_max_length s
   \<and> queue_max_length_seen (sender_runs k s) = queue_max_length_seen s
   \<and> length (event_queue (sender_runs k s)) \<le> length (event_queue s)
   \<and> submitted (effects (sender_runs k s)) @ event_queue (sender_runs k s)
       = submitted (effects s) @ event_queue s"
proof (induction k arbitrary: s)
  case 0
  show ?case by simp
next
  case (Suc k)
  obtain r s' where it: "send_iteration s = (r, s')" by (cases "send_iteration s")
  note f = send_iteration_frame [of s, unfolded it snd_conv]
  show ?case
  proof (cases r)
    case Continue
    with it Suc.IH [of s'] f show ?thesis by simp
  qed (use it f in simp_all)
qed

lemma timedwait_frame:
  "queue_max_length (pthread_cond_timedwait t s) = queue_max_length s
   \<and> queue_max_length_seen (pthread_cond_timedwait t s) = queue_max_length_seen s
   \<and> length (event_queue (pthread_cond_timedwait t s)) \<le> length (event_queue s)
   \<and> submitted (effects (pthread_cond_timedwait t s)) @ event_queue (pthread_cond_timedwait t s)
       = submitted (effects s) @ event_queue s"
proof (cases "wake_oracle s")
  case Nil
  then show ?thesis by (simp add: pthread_cond_timedwait_def Let_def submitted_append)
next
  case (Cons k rest)
  with sender_runs_frame
    [of k "s\<lparr>effects := effects s @ [Pthread_cond_timedwait t], wake_oracle := rest\<rparr>"]
  show ?thesis by (simp add: pthread_cond_timedwait_def Let_def submitted_append)
qed

lemma push_event_inv:
  assumes "queue_inv s" and "\<not> queue_max_length s \<le> g_queue_get_length (event_queue s)"
  shows "queue_inv (push_event e s)"
    and "queue_max_length_seen s \<le> queue_max_length_seen (push_event e s)"
proof -
  have cap: "unat (queue_max_length s) < 2 ^ 32"
    using unsigned_less [of "queue_max_length s"] by simp
  from assms(1) have le: "length (event_queue s) \<le> unat (queue_max_length s)"
    by (simp add: queue_inv_def)
  with cap have "unat (g_queue_get_length (event_queue s)) = length (event_queue s)"
    by (simp add: g_queue_get_length_def unat_of_nat)
  with assms(2) have lt: "length (event_queue s) < unat (queue_max_length s)"
    by (simp add: word_le_nat_alt)
  have "unat (word_of_nat (Suc (length (event_queue s))) :: 32 word)
          = Suc (length (event_queue s)) mod 2 ^ 32"
    by (simp only: unat_of_nat) simp
  with cap lt have n: "unat (g_queue_get_length (event_queue s @ [e])) = Suc (length (event_queue s))"
    by (simp only: g_queue_get_length_def length_append_singleton) simp
  show "queue_max_length_seen s \<le> queue_max_length_seen (push_event e s)"
    by (auto simp: push_event_def Let_def MAX_uint_def)
  show "queue_inv (push_event e s)"
    using lt n
    by (auto simp: queue_inv_def push_event_def Let_def MAX_uint_def g_queue_push_tail_def
        word_less_nat_alt)
qed

lemma push_event_seen_mono:
  "queue_max_length_seen s \<le> queue_max_length_seen (push_event e s)"
  by (auto simp: push_event_def Let_def MAX_uint_def)

lemma enqueue_inv:
  assumes "queue_inv s"
  shows "queue_inv (snd (enqueue e s))"
proof -
  let ?w = "pthread_cond_timedwait QUEUE_FULL_TIMEOUT s"
  from assms timedwait_frame [of QUEUE_FULL_TIMEOUT s] have "queue_inv ?w"
    by (simp add: queue_inv_def)
  then show ?thesis using assms
    by (simp add: enqueue_def Let_def push_event_inv)
qed

lemma enqueue_seen_mono:
  "queue_max_length_seen s \<le> queue_max_length_seen (snd (enqueue e s))"
  using timedwait_frame [of QUEUE_FULL_TIMEOUT s]
    push_event_seen_mono [of "pthread_cond_timedwait QUEUE_FULL_TIMEOUT s" e]
  by (simp add: enqueue_def Let_def push_event_seen_mono)

lemma apply_op_inv:
  assumes "queue_inv s"
  shows "queue_inv (apply_op x s)"
proof (cases x)
  case (Enqueue e)
  with enqueue_inv [OF assms, of e] show ?thesis by (simp add: apply_op_def)
next
  case Dequeue
  with assms send_iteration_frame [of s] show ?thesis
    by (simp add: apply_op_def queue_inv_def)
qed

lemma apply_op_seen_mono:
  "queue_max_length_seen s \<le> queue_max_length_seen (apply_op x s)"
  by (cases x) (simp_all add: apply_op_def enqueue_seen_mono send_iteration_frame)

lemma run_ops_inv: "queue_inv s \<Longrightarrow> queue_inv (run_ops ops s)"
  by (induction ops arbitrary: s) (simp_all add: run_ops_def apply_op_inv)

lemma run_ops_seen_mono:
  "queue_max_length_seen s \<le> queue_max_length_seen (run_ops ops s)"
proof (induction ops arbitrary: s)
  case Nil
  show ?case by (simp add: run_ops_def)
next
  case (Cons x ops)
  from apply_op_seen_mono [of s x] Cons [of "apply_op x s"] show ?case
    by (simp add: run_ops_def)
qed

lemma run_ops_append: "run_ops (xs @ ys) s = run_ops ys (run_ops xs s)"
  by (simp add: run_ops_def)

lemma enqueue_fifo:
  "submitted (effects (snd (enqueue e s))) @ event_queue (snd (enqueue e s))
     = submitted (effects s) @ event_queue s
         @ (case fst (fst (enqueue e s)) of Accepted \<Rightarrow> [e] | Discarded \<Rightarrow> [])"
  using timedwait_frame [of QUEUE_FULL_TIMEOUT s]
  by (simp add: enqueue_def Let_def push_event_simps)

lemma freed_messages_append: "freed_messages (xs @ ys) = freed_messages xs @ freed_messages ys"
  by (induction xs rule: freed_messages.induct) auto

lemma destroyed_params_append:
  "destroyed_params (xs @ ys) = destroyed_params xs @ destroyed_params ys"
  by (induction xs rule: destroyed_params.induct) auto

lemma destroyed_app_data_append:
  "destroyed_app_data (xs @ ys) = destroyed_app_data xs @ destroyed_app_data ys"
  by (induction xs rule: destroyed_app_data.induct) auto

lemma failed_submissions_append:
  "failed_submissions (xs @ ys) = failed_submissions xs @ failed_submissions ys"
  by (induction xs rule: failed_submissions.induct) auto

lemmas projections_append =
  submitted_append freed_messages_append destroyed_params_append destroyed_app_data_append
  failed_submissions_append

lemma send_iteration_Nil: "event_queue s = [] \<Longrightarrow> send_iteration s = (Waiting, s)"
  by (simp add: send_iteration_def)

lemma send_iteration_Cons:
  assumes "event_queue s = a # rest"
  shows "event_queue (snd (send_iteration s)) = rest"
    and "effects (snd (send_iteration s)) = effects s
           @ [Jalp_audit a payload_str (next_rc s), Free_message a, Jalp_param_destroy a,
              Jalp_app_metadata_destroy a]
           @ (if next_rc s \<noteq> JAL_OK
              then [Syslog ''failure sending JALP audit message, rc: %d''] else [])"
    and "status (snd (send_iteration s)) = (if next_rc s \<noteq> JAL_OK then RELOAD else status s)"
    and "fst (send_iteration s) = (if next_rc s \<noteq> JAL_OK then Returned else Continue)"
  using assms
  by (simp_all add: send_iteration_def jalp_audit_def Let_def syslog_def next_rc_def
      split: list.split)

lemma sender_ok_all: "sender_ok s (send_messages_to_local_store s)"
proof (induction s rule: send_messages_to_local_store.induct)
  case (1 s)
  obtain c t where it: "send_iteration s = (c, t)"
    by (cases "send_iteration s")
  show ?case
  proof (cases "event_queue s")
    case Nil
    then show ?thesis
      by (simp add: send_messages_to_local_store.simps [of s] send_iteration_Nil sender_ok_def)
  next
    case (Cons a rest)
    note sh = send_iteration_Cons [OF Cons, unfolded it fst_conv snd_conv]
    show ?thesis
    proof (cases "next_rc s = JAL_OK")
      case True
      with sh have c: "c = Continue" by simp
      from "1" [OF it [symmetric] c] have ih: "sender_ok t (send_messages_to_local_store t)" .
      obtain r s' where res: "send_messages_to_local_store t = (r, s')"
        by (cases "send_messages_to_local_store t")
      from it c res have "send_messages_to_local_store s = (r, s')"
        by (simp add: send_messages_to_local_store.simps [of s])
      with ih res sh Cons True show ?thesis
        by (simp add: sender_ok_def projections_append)
    next
      case False
      with sh have c: "c = Returned" by simp
      have "\<exists>a' rc' pre. rc' \<noteq> JAL_OK \<and> effects t = pre @ failure_effects a' rc'
          \<and> failed_submissions (effects t) = failed_submissions (effects s) @ [a']"
        using False sh
        by (intro exI [of _ a] exI [of _ "next_rc s"] exI [of _ "effects s"])
          (simp add: failure_effects_def projections_append)
      with it c sh Cons False show ?thesis
        by (simp add: send_messages_to_local_store.simps [of s] sender_ok_def
            projections_append)
    qed
  qed
qed

lemma run_sample: "event_queue (run_ops sample_ops tiny_queue) = []
  \<and> submitted (effects (run_ops sample_ops tiny_queue)) = [syscall_event, cwd_event]
  \<and> accepted sample_ops tiny_queue = [syscall_event, cwd_event]
  \<and> queue_max_length_seen (run_ops sample_ops tiny_queue) = 1"
  by (simp add: sample_ops_def tiny_queue_def init_state_def run_ops_def apply_op_def
      enqueue_def pthread_cond_timedwait_def push_event_def send_iteration_def jalp_audit_def
      g_queue_get_length_def g_queue_push_tail_def MAX_uint_def Let_def JAL_OK_def)

lemma run_failing_sink:
  "fst (send_messages_to_local_store failing_sink) = Returned
   \<and> event_queue (snd (send_messages_to_local_store failing_sink)) = [cwd_event]
   \<and> submitted (effects (snd (send_messages_to_local_store failing_sink)))
       = [syscall_event, path_event]
   \<and> status (snd (send_messages_to_local_store failing_sink)) = RELOAD"
  by (simp add: failing_sink_def init_state_def send_messages_to_local_store.simps
      send_iteration_def jalp_audit_def syslog_def Let_def JAL_OK_def)

section \<open>Lemmas on the callback\<close>

lemma alloc_frame:
  "event_queue (snd (alloc s)) = event_queue s"
  "effects (snd (alloc s)) = effects s"
  "queue_max_length (snd (alloc s)) = queue_max_length s"
  by (simp_all add: alloc_def split: list.split)

lemma field_body_queue: "event_queue (snd (field_body f ps s)) = event_queue s"
  using alloc_frame(1) [of s]
  by (auto simp: field_body_def syslog_def split: prod.split bool.split)

lemma fields_loop_queue: "event_queue (snd (fields_loop f fs ps s)) = event_queue s"
proof (induction fs arbitrary: f ps s)
  case Nil
  show ?case by (simp add: field_body_queue)
next
  case (Cons g gs)
  obtain r s1 where fb: "field_body f ps s = (r, s1)" by (cases "field_body f ps s")
  with field_body_queue [of f ps s] have "event_queue s1 = event_queue s" by simp
  with fb Cons [of g _ s1] show ?case by (cases r) simp_all
qed

lemma field_body_marker: "fst (field_body (''type'', ''EOE'') ps s) = None"
  by (simp add: field_body_def)

lemma fields_loop_marker:
  "(''type'', ''EOE'') \<in> set (f # fs) \<Longrightarrow> fst (fields_loop f fs ps s) = None"
proof (induction fs arbitrary: f ps s)
  case Nil
  then show ?case by (auto simp: field_body_marker)
next
  case (Cons g gs)
  obtain r s1 where fb: "field_body f ps s = (r, s1)" by (cases "field_body f ps s")
  show ?case
  proof (cases "f = (''type'', ''EOE'')")
    case True
    with field_body_marker [of ps s] fb have "r = None" by simp
    with fb show ?thesis by simp
  next
    case False
    with Cons.prems have "(''type'', ''EOE'') \<in> set (g # gs)" by auto
    from Cons.IH [OF this] fb show ?thesis by (cases r) simp_all
  qed
qed

lemma record_body_marker:
  assumes "(''type'', ''EOE'') \<in> set (first_field r # next_fields r)"
  shows "fst (record_body r s) = False \<and> event_queue (snd (record_body r s)) = event_queue s"
proof -
  obtain b1 s1 where a1: "alloc s = (b1, s1)" by (cases "alloc s")
  obtain b2 s2 where a2: "alloc s1 = (b2, s2)" by (cases "alloc s1")
  obtain b3 s3 where a3: "alloc s2 = (b3, s3)" by (cases "alloc s2")
  obtain b4 s4 where a4: "alloc s3 = (b4, s4)" by (cases "alloc s3")
  obtain ps s5 where fl: "fields_loop (first_field r) (next_fields r) [] s4 = (ps, s5)"
    by (cases "fields_loop (first_field r) (next_fields r) [] s4")
  from fields_loop_marker [OF assms, of "[]" s4] fl have none: "ps = None" by simp
  have q: "event_queue s1 = event_queue s" "event_queue s2 = event_queue s1"
    "event_queue s3 = event_queue s2" "event_queue s4 = event_queue s3"
    "event_queue s5 = event_queue s4"
    using alloc_frame(1) [of s] alloc_frame(1) [of s1] alloc_frame(1) [of s2]
      alloc_frame(1) [of s3] fields_loop_queue [of "first_field r" "next_fields r" "[]" s4]
      a1 a2 a3 a4 fl by simp_all
  show ?thesis
    using a1 a2 a3 a4 fl none q
    by (cases b1; cases b2; cases b3; cases b4) (simp_all add: record_body_def syslog_def)
qed

lemma two_records:
  "event_queue (audit_event_handle (syscall_record, [eoe_record]) AUPARSE_CB_EVENT_READY
        init_state) = [syscall_event]"
  by (simp add: audit_event_handle_def record_body_def alloc_def field_body_def
      syscall_record_def eoe_record_def init_state_def enqueue_def push_event_def
      g_queue_get_length_def g_queue_push_tail_def Let_def syscall_event_def)

lemma records_loop_failure: "record_body r s = (False, s') \<Longrightarrow> records_loop r later s = (False, s')"
  by (cases later) simp_all

lemma records_loop_append:
  "records_loop p (ps @ r # later) s = (case records_loop p ps s of
       (False, s1) \<Rightarrow> (False, s1)
     | (True, s1) \<Rightarrow> records_loop r later s1)"
proof (induction ps arbitrary: p s)
  case Nil
  show ?case by simp
next
  case (Cons q qs)
  obtain b s1 where rb: "record_body p s = (b, s1)" by (cases "record_body p s")
  with Cons [of q s1] show ?case by (cases b) simp_all
qed

lemma send_iteration_drop: "\<exists>k. event_queue (snd (send_iteration s)) = drop k (event_queue s)"
proof (cases "event_queue s")
  case Nil
  then show ?thesis by (simp add: send_iteration_Nil)
next
  case (Cons a rest)
  from send_iteration_Cons(1) [OF this] Cons
  have "event_queue (snd (send_iteration s)) = drop 1 (event_queue s)" by simp
  then show ?thesis ..
qed

lemma sender_runs_drop: "\<exists>k. event_queue (sender_runs n s) = drop k (event_queue s)"
proof (induction n arbitrary: s)
  case 0
  have "event_queue (sender_runs 0 s) = drop 0 (event_queue s)" by simp
  then show ?case ..
next
  case (Suc n)
  obtain c t where it: "send_iteration s = (c, t)" by (cases "send_iteration s")
  from send_iteration_drop [of s] it obtain j where j: "event_queue t = drop j (event_queue s)"
    by auto
  show ?case
  proof (cases c)
    case Continue
    from Suc [of t] obtain k where "event_queue (sender_runs n t) = drop k (event_queue t)" ..
    with j have "event_queue (sender_runs n t) = drop (j + k) (event_queue s)"
      by (simp add: add.commute)
    with it Continue show ?thesis by auto
  qed (use it j in auto)
qed

lemma timedwait_drop:
  "\<exists>k. event_queue (pthread_cond_timedwait t s) = drop k (event_queue s)"
proof (cases "wake_oracle s")
  case Nil
  then have "event_queue (pthread_cond_timedwait t s) = drop 0 (event_queue s)"
    by (simp add: pthread_cond_timedwait_def Let_def)
  then show ?thesis ..
next
  case (Cons n rest)
  with sender_runs_drop
    [of n "s\<lparr>effects := effects s @ [Pthread_cond_timedwait t], wake_oracle := rest\<rparr>"]
  show ?thesis by (simp add: pthread_cond_timedwait_def Let_def)
qed

lemma enqueue_Discarded:
  "enqueue e s = ((Discarded, w), s') \<Longrightarrow> s' = pthread_cond_timedwait QUEUE_FULL_TIMEOUT s"
  by (auto simp: enqueue_def Let_def split: if_splits)

lemma record_body_failure_drop:
  assumes "record_body r s = (False, s')"
  shows "\<exists>k. event_queue s' = drop k (event_queue s)"
proof -
  obtain b1 s1 where a1: "alloc s = (b1, s1)" by (cases "alloc s")
  obtain b2 s2 where a2: "alloc s1 = (b2, s2)" by (cases "alloc s1")
  obtain b3 s3 where a3: "alloc s2 = (b3, s3)" by (cases "alloc s2")
  obtain b4 s4 where a4: "alloc s3 = (b4, s4)" by (cases "alloc s3")
  obtain ps s5 where fl: "fields_loop (first_field r) (next_fields r) [] s4 = (ps, s5)"
    by (cases "fields_loop (first_field r) (next_fields r) [] s4")
  obtain b6 s6 where a6: "alloc s5 = (b6, s6)" by (cases "alloc s5")
  have q: "event_queue s1 = event_queue s" "event_queue s2 = event_queue s"
    "event_queue s3 = event_queue s" "event_queue s4 = event_queue s"
    "event_queue s5 = event_queue s" "event_queue s6 = event_queue s"
    using alloc_frame(1) [of s] alloc_frame(1) [of s1] alloc_frame(1) [of s2]
      alloc_frame(1) [of s3] fields_loop_queue [of "first_field r" "next_fields r" "[]" s4]
      alloc_frame(1) [of s5] a1 a2 a3 a4 fl a6 by simp_all
  have same: "event_queue s' = event_queue s \<Longrightarrow> ?thesis"
  proof -
    assume "event_queue s' = event_queue s"
    then have "event_queue s' = drop 0 (event_queue s)" by simp
    then show ?thesis ..
  qed
  show ?thesis
  proof (cases "b1 \<and> b2 \<and> b3 \<and> b4 \<and> ps \<noteq> None \<and> b6")
    case False
    with assms a1 a2 a3 a4 fl a6 q have "event_queue s' = event_queue s"
      by (cases b1; cases b2; cases b3; cases b4; cases ps; cases b6)
        (auto simp: record_body_def syslog_def)
    then show ?thesis by (rule same)
  next
    case True
    then obtain params where ps: "ps = Some params" by auto
    obtain oc w s7 where en: "enqueue (build_app_data params (record_text r)) s6 = ((oc, w), s7)"
      by (metis surj_pair)
    from assms True ps a1 a2 a3 a4 fl a6 en have "oc = Discarded" "s' = s7"
      by (cases oc; simp add: record_body_def)+
    with enqueue_Discarded en have "s' = pthread_cond_timedwait QUEUE_FULL_TIMEOUT s6" by simp
    with timedwait_drop [of QUEUE_FULL_TIMEOUT s6] q show ?thesis by simp
  qed
qed

lemma run_late_failure:
  "fst (records_loop syscall_record [] late_failing_alloc)
   \<and> \<not> fst (record_body path_record (snd (records_loop syscall_record [] late_failing_alloc)))
   \<and> event_queue (snd (record_body path_record
         (snd (records_loop syscall_record [] late_failing_alloc)))) = [syscall_event]"
  by (simp add: record_body_def alloc_def field_body_def
      syscall_record_def path_record_def late_failing_alloc_def init_state_def enqueue_def
      push_event_def g_queue_get_length_def g_queue_push_tail_def Let_def syscall_event_def
      syslog_def)

section \<open>Lemmas on configuration and \<open>main\<close>\<close>

lemma sint_int_le_INT_MAX: "\<not> INT_MAX < sint (scast (x :: c_int) :: c_long)"
proof -
  have "sint (scast x :: c_long) = sint x"
    by (simp add: sint_up_scast is_up)
  moreover have "sint x < 2 ^ (LENGTH(32) - 1)" by (rule sint_lt)
  ultimately show ?thesis by (simp add: INT_MAX_def)
qed

lemma long_round_trip: "scast (scast (x :: c_int) :: c_long) = x"
  by (simp add: scast_up_scast_id is_up)

lemma config_load_frame:
  "int_settings c PRINTSTATS = None \<Longrightarrow>
     print_stats (snd (config_load (Some c) s)) = print_stats s"
  "int_settings c PRINTSTATSFREQ = None \<Longrightarrow>
     print_stats_freq (snd (config_load (Some c) s)) = print_stats_freq s"
  "int_settings c QUEUEMAXLENGTH = None \<Longrightarrow>
     queue_max_length (snd (config_load (Some c) s)) = queue_max_length s"
  by (simp_all add: config_load_def config_lookup_int_def syslog_def)

lemma config_load_legacy_frame:
  "long_settings c PRINTSTATS = None \<Longrightarrow>
     print_stats (snd (config_load_legacy (Some c) s)) = print_stats s"
  "long_settings c PRINTSTATSFREQ = None \<Longrightarrow>
     print_stats_freq (snd (config_load_legacy (Some c) s)) = print_stats_freq s"
  "long_settings c QUEUEMAXLENGTH = None \<Longrightarrow>
     queue_max_length (snd (config_load_legacy (Some c) s)) = queue_max_length s"
  by (simp_all add: config_load_legacy_def config_lookup_long_def syslog_def Let_def
      sint_int_le_INT_MAX long_round_trip)

lemma load_block_settings:
  "print_stats (block_state (load_block env (l, s)))
     = print_stats (snd (config_load (Some (config_file env)) s))"
  "print_stats_freq (block_state (load_block env (l, s)))
     = print_stats_freq (snd (config_load (Some (config_file env)) s))"
  "queue_max_length (block_state (load_block env (l, s)))
     = queue_max_length (snd (config_load (Some (config_file env)) s))"
  by (simp_all add: load_block_def block_state_def config_load_def syslog_def emit_def Let_def
      split: prod.split)

lemma RUN_not_RELOAD: "RUN \<noteq> RELOAD"
  by (simp add: RUN_def RELOAD_def)

lemma inner_loop_eof:
  "status s = RUN \<Longrightarrow>
     inner_loop [] (l, s) = ([], l\<lparr>main_rc := 0, read_size := 0\<rparr>, s)"
  by (simp add: inner_iteration_def inner_iteration_end_def eof_event_def Let_def)

lemma main_loop_eof:
  "status s = RUN \<Longrightarrow> main_ctx l \<noteq> None \<Longrightarrow> main_loop n envs [] (l, s) = None"
proof (induction n arbitrary: l s)
  case 0
  show ?case by simp
next
  case (Suc n)
  have ih: "main_loop n envs [] (l\<lparr>read_size := 1, main_rc := 0, read_size := 0\<rparr>, s) = None"
    using Suc.prems by (intro Suc.IH) simp_all
  have il: "inner_loop [] (l\<lparr>read_size := 1\<rparr>, s)
      = ([], l\<lparr>read_size := 1, main_rc := 0, read_size := 0\<rparr>, s)"
    by (rule inner_loop_eof [OF Suc.prems(1)])
  from Suc.prems RUN_not_RELOAD
  have stay: "\<not> (status s = RELOAD \<or> main_ctx (l\<lparr>read_size := 1\<rparr>) = None)"
    by simp
  show ?case
    unfolding main_loop.simps Let_def prod.case if_not_P [OF stay] block_end.case il
    using Suc.prems(1) ih by simp
qed

lemma first_load:
  "load_block default_load_env (start_locals\<lparr>read_size := 1\<rparr>, init_state)
     = Falls_through
        (start_locals\<lparr>main_rc := JAL_OK, main_ctx := Some jalp_context_create\<rparr>,
         init_state\<lparr>effects := [Syslog ''loading config'',
            Jalp_context_destroy, Config_destroy, Pthread_create Send_ls_thread]\<rparr>)"
  by (simp add: load_block_def config_load_def context_init_def config_lookup_int_def
      default_load_env_def start_locals_def init_state_def syslog_def emit_def Let_def
      jalp_context_create_def CONFIG_TRUE_def JAL_OK_def RUN_def RELOAD_def)

text \<open>The fuel does not hide a loop that ends: a timeout goes round the inner loop
  again, and after \<open>SIGTERM\<close> \<open>main\<close> returns (with the \<open>-1\<close> that the interrupted
  \<open>select\<close> left in \<open>rc\<close>).\<close>

lemma timeout_continues:
  "status s = RUN \<Longrightarrow> read_size l \<noteq> 0 \<Longrightarrow>
     inner_loop (timeout_event # evs) (l, s) = inner_loop evs (l\<lparr>main_rc := 0\<rparr>, s)"
  by (simp add: inner_iteration_def inner_iteration_end_def timeout_event_def Let_def
      auparse_callbacks_def)

lemma main_returns_after_sigterm:
  "main (Suc n) (eof_main_env\<lparr>events := [sigterm_event]\<rparr>) init_state
     = Some (- 1, init_state\<lparr>status := STOP, effects := [Syslog ''loading config'',
            Jalp_context_destroy, Config_destroy, Pthread_create Send_ls_thread,
            Jalp_context_destroy]\<rparr>)"
proof -
  have load: "status init_state = RELOAD \<or> main_ctx (start_locals\<lparr>read_size := 1\<rparr>) = None"
    by (simp add: start_locals_def)
  have stop: "\<not> (STOP = RUN \<or> STOP = RELOAD)"
    by (simp add: STOP_def RUN_def RELOAD_def)
  have "main_loop (Suc n) [] [sigterm_event] (start_locals, init_state)
      = Some (Falls_through
          (start_locals\<lparr>main_rc := - 1, main_ctx := Some jalp_context_create\<rparr>,
           init_state\<lparr>status := STOP, effects := [Syslog ''loading config'',
            Jalp_context_destroy, Config_destroy, Pthread_create Send_ls_thread]\<rparr>))"
    unfolding main_loop.simps Let_def prod.case if_P [OF load] list.case first_load
      block_end.case
    using stop
    by (simp add: inner_iteration_def inner_iteration_end_def sigterm_event_def Let_def
        sig_handle_def init_state_def start_locals_def SIGTERM_def SIGHUP_def)
  then show ?thesis
    by (simp add: main_def eof_main_env_def start_locals_def JAL_OK_def main_out_def
        auparse_callbacks_def emit_def init_state_def)
qed

section \<open>Backpressure\<close>

text \<open>
  Claim C4. Start from an empty queue of capacity \<open>C = (unsigned int)queue_max_length\<close>
  with a sender thread that never runs while the producer waits. The first \<open>C\<close>
  enqueues are accepted without waiting and the queue holds their events in order. The
  next enqueue waits once in \<open>pthread_cond_timedwait\<close> with the timeout of
  \<open>QUEUE_FULL_TIMEOUT\<close> (5) seconds, finds the queue still full and discards its own
  event: the queue and the high-water mark stay as they were.
\<close>

theorem backpressure_discards_newest:
  assumes "event_queue s = []" and "wake_oracle s = []"
    and "length es = unat (queue_max_length s)"
  shows "fst (enqueue_all es s) = replicate (length es) (Accepted, False)
     \<and> event_queue (snd (enqueue_all es s)) = es
     \<and> fst (enqueue e (snd (enqueue_all es s))) = (Discarded, True)
     \<and> event_queue (snd (enqueue e (snd (enqueue_all es s)))) = es
     \<and> queue_max_length_seen (snd (enqueue e (snd (enqueue_all es s))))
         = queue_max_length_seen (snd (enqueue_all es s))
     \<and> effects (snd (enqueue e (snd (enqueue_all es s))))
         = effects s @ [Pthread_cond_timedwait QUEUE_FULL_TIMEOUT]
     \<and> QUEUE_FULL_TIMEOUT = 5"
proof -
  have "length (event_queue s) + length es \<le> unat (queue_max_length s)"
    using assms by simp
  note r = enqueue_all_room [OF this]
  let ?t = "snd (enqueue_all es s)"
  have "length (event_queue ?t) = unat (queue_max_length ?t)" "wake_oracle ?t = []"
    using r assms by simp_all
  from enqueue_full_no_sender [OF this, of e] r assms show ?thesis
    by (simp add: QUEUE_FULL_TIMEOUT_def)
qed

theorem backpressure_discards_newest_witness:
  "fst (enqueue_all [syscall_event, path_event] (init_state\<lparr>queue_max_length := 2\<rparr>))
     = [(Accepted, False), (Accepted, False)]
   \<and> event_queue (snd (enqueue_all [syscall_event, path_event]
        (init_state\<lparr>queue_max_length := 2\<rparr>))) = [syscall_event, path_event]
   \<and> fst (enqueue cwd_event (snd (enqueue_all [syscall_event, path_event]
        (init_state\<lparr>queue_max_length := 2\<rparr>)))) = (Discarded, True)
   \<and> event_queue (snd (enqueue cwd_event (snd (enqueue_all [syscall_event, path_event]
        (init_state\<lparr>queue_max_length := 2\<rparr>))))) = [syscall_event, path_event]"
  using backpressure_discards_newest
    [of "init_state\<lparr>queue_max_length := 2\<rparr>" "[syscall_event, path_event]" cwd_event]
  by (simp add: init_state_def)

section \<open>Bounds of the queue\<close>

text \<open>
  Claim C5. Take any state in which the queue is within its bounds (as at program start:
  empty queue, high-water mark 0) and any sequence of enqueues and sender passes. After
  the sequence the queue length is at most the capacity; the high-water mark has not
  decreased, and does not decrease when the run goes on; and the high-water mark at the
  end is at least the queue length observed after every prefix of the sequence. (A
  length, being a natural number, is never negative.)
\<close>

theorem queue_bounds_and_high_water_mark:
  assumes "queue_inv s"
  shows "length (event_queue (run_ops ops s)) \<le> unat (queue_max_length s)
     \<and> queue_max_length_seen s \<le> queue_max_length_seen (run_ops ops s)
     \<and> queue_max_length_seen (run_ops ops s) \<le> queue_max_length_seen (run_ops (ops @ later) s)
     \<and> (\<forall>n \<le> length ops. length (event_queue (run_ops (take n ops) s))
           \<le> unat (queue_max_length_seen (run_ops ops s)))"
proof -
  have cap: "queue_max_length (run_ops xs t) = queue_max_length t" for xs t
  proof (induction xs arbitrary: t)
    case Nil
    show ?case by (simp add: run_ops_def)
  next
    case (Cons x xs)
    have "queue_max_length (apply_op x t) = queue_max_length t"
      using timedwait_frame [of QUEUE_FULL_TIMEOUT t]
      by (cases x) (simp_all add: apply_op_def send_iteration_frame enqueue_def Let_def
          push_event_simps)
    with Cons [of "apply_op x t"] show ?case by (simp add: run_ops_def)
  qed
  have 1: "length (event_queue (run_ops ops s)) \<le> unat (queue_max_length s)"
    using run_ops_inv [OF assms, of ops] cap [of ops s] by (simp add: queue_inv_def)
  have 4: "length (event_queue (run_ops (take n ops) s))
             \<le> unat (queue_max_length_seen (run_ops ops s))" for n
  proof -
    have "run_ops ops s = run_ops (drop n ops) (run_ops (take n ops) s)"
      using run_ops_append [of "take n ops" "drop n ops" s] by simp
    then have "queue_max_length_seen (run_ops (take n ops) s)
                 \<le> queue_max_length_seen (run_ops ops s)"
      using run_ops_seen_mono [of "run_ops (take n ops) s" "drop n ops"] by simp
    moreover have "length (event_queue (run_ops (take n ops) s))
                     \<le> unat (queue_max_length_seen (run_ops (take n ops) s))"
      using run_ops_inv [OF assms, of "take n ops"] by (simp add: queue_inv_def)
    ultimately show ?thesis by (simp add: word_le_nat_alt)
  qed
  show ?thesis
    using 1 4 run_ops_seen_mono [of s ops] run_ops_seen_mono [of "run_ops ops s" later]
    by (simp add: run_ops_append)
qed

theorem queue_bounds_witness:
  "queue_inv tiny_queue
   \<and> length (event_queue (run_ops sample_ops tiny_queue)) \<le> unat (queue_max_length tiny_queue)
   \<and> queue_max_length_seen tiny_queue \<le> queue_max_length_seen (run_ops sample_ops tiny_queue)
   \<and> length (event_queue (run_ops (take 1 sample_ops) tiny_queue))
        \<le> unat (queue_max_length_seen (run_ops sample_ops tiny_queue))"
proof -
  have inv: "queue_inv tiny_queue"
    by (simp add: queue_inv_def tiny_queue_def init_state_def)
  note t = queue_bounds_and_high_water_mark [OF inv, of sample_ops "[]"]
  then have "1 \<le> length sample_ops \<longrightarrow>
      length (event_queue (run_ops (take 1 sample_ops) tiny_queue))
        \<le> unat (queue_max_length_seen (run_ops sample_ops tiny_queue))"
    by blast
  with inv t show ?thesis by (simp add: sample_ops_def)
qed

section \<open>First in, first out\<close>

text \<open>
  Claim C6. For every sequence of enqueues and sender passes from any state: the events
  that have left the queue (in the order they left), followed by the events still
  queued, are those that had left before and those queued before, followed by the
  accepted events of the run in the order of their enqueues. Events are appended at the
  tail and removed from the head, so they leave in exactly the order they entered.
\<close>

theorem queue_is_fifo:
  "submitted (effects (run_ops ops s)) @ event_queue (run_ops ops s)
     = submitted (effects s) @ event_queue s @ accepted ops s"
proof (induction ops s rule: accepted.induct)
  case (1 s)
  show ?case by (simp add: run_ops_def)
next
  case (2 e ops s)
  obtain oc w s1 where en: "enqueue e s = ((oc, w), s1)"
    by (metis surj_pair)
  with 2 [of "(oc, w)" s1 oc w] enqueue_fifo [of e s] show ?case
    by (cases oc) (simp_all add: run_ops_def apply_op_def)
next
  case (3 ops s)
  with send_iteration_frame(4) [of s] show ?case
    by (simp add: run_ops_def apply_op_def)
qed

theorem queue_is_fifo_witness:
  "submitted (effects (run_ops sample_ops tiny_queue)) @ event_queue (run_ops sample_ops tiny_queue)
     = accepted sample_ops tiny_queue
   \<and> accepted sample_ops tiny_queue = [syscall_event, cwd_event]"
  using queue_is_fifo [of sample_ops tiny_queue] run_sample
  by (simp add: tiny_queue_def init_state_def)

section \<open>The sender thread\<close>

text \<open>
  Claim C7. Run the sender thread from any state until it sleeps on the empty queue or
  returns. The events it took from the queue are exactly the events it handed to
  \<open>jalp_audit\<close>, once each and in order, and exactly those whose message, parameter list
  and application metadata it released, whether the submission succeeded or failed.
  It either ends sleeping on the empty queue with the status untouched and no failed
  submission, or it returns after a failed submission: the last things it did are that
  submission, the three releases and the log line, the status is \<open>RELOAD\<close>, and the
  failed event, submitted that once, is not in the queue again.
\<close>

theorem sender_submits_each_event_once:
  assumes "send_messages_to_local_store s = (r, s')"
  shows "submitted (effects s') @ event_queue s' = submitted (effects s) @ event_queue s
   \<and> freed_messages (effects s') @ event_queue s' = freed_messages (effects s) @ event_queue s
   \<and> destroyed_params (effects s') @ event_queue s'
       = destroyed_params (effects s) @ event_queue s
   \<and> destroyed_app_data (effects s') @ event_queue s'
       = destroyed_app_data (effects s) @ event_queue s
   \<and> (r = Waiting \<and> event_queue s' = [] \<and> status s' = status s
        \<and> failed_submissions (effects s') = failed_submissions (effects s)
      \<or> r = Returned \<and> status s' = RELOAD
        \<and> (\<exists>a rc pre. rc \<noteq> JAL_OK \<and> effects s' = pre @ failure_effects a rc
              \<and> failed_submissions (effects s') = failed_submissions (effects s) @ [a]))"
  using sender_ok_all [of s] assms by (simp add: sender_ok_def)

theorem sender_submits_each_event_once_witness:
  "fst (send_messages_to_local_store failing_sink) = Returned
   \<and> submitted (effects (snd (send_messages_to_local_store failing_sink)))
        @ event_queue (snd (send_messages_to_local_store failing_sink))
      = [syscall_event, path_event, cwd_event]
   \<and> destroyed_app_data (effects (snd (send_messages_to_local_store failing_sink)))
        @ event_queue (snd (send_messages_to_local_store failing_sink))
      = [syscall_event, path_event, cwd_event]
   \<and> status (snd (send_messages_to_local_store failing_sink)) = RELOAD"
  using sender_submits_each_event_once [of failing_sink
      "fst (send_messages_to_local_store failing_sink)"
      "snd (send_messages_to_local_store failing_sink)"]
    run_failing_sink
  by (simp add: failing_sink_def init_state_def)

section \<open>The end-of-event marker\<close>

text \<open>
  Claim C1 as stated fails. Feed the callback one event whose single record has the
  fields \<open>[("type","SYSCALL"), ("uid","1000"), ("type","EOE")]\<close>, from the initial state
  with every allocation succeeding: the queue stays empty. It does not hold the one
  event with the fields \<open>[("type","SYSCALL"), ("uid","1000")]\<close> that the claim expects.
\<close>

theorem marker_field_counterexample:
  "event_queue (audit_event_handle (marked_record, []) AUPARSE_CB_EVENT_READY init_state) = []
   \<and> event_queue (audit_event_handle (marked_record, []) AUPARSE_CB_EVENT_READY init_state)
       \<noteq> [build_app_data [(''type'', ''SYSCALL''), (''uid'', ''1000'')]
            (record_text marked_record)]"
  by (simp add: audit_event_handle_def record_body_def alloc_def field_body_def
      marked_record_def init_state_def)

text \<open>
  Claim C1 as amended. For a single record whose fields are
  \<open>[("type","SYSCALL"), ("uid","1000"), ("type","EOE")]\<close> the callback enqueues nothing,
  from any state: on reaching the marker field it takes \<open>goto out\<close>, and the record is
  discarded with the fields before the marker. The marker ends the event without
  loss when it is a record of its own: for an event made of the record
  \<open>[("type","SYSCALL"), ("uid","1000")]\<close> followed by the record \<open>[("type","EOE")]\<close>,
  from the initial state, exactly one event is enqueued, with the fields
  \<open>[("type","SYSCALL"), ("uid","1000")]\<close>.
\<close>

theorem marker_field_discards_record:
  "event_queue (audit_event_handle (marked_record, []) AUPARSE_CB_EVENT_READY s) = event_queue s
   \<and> event_queue (audit_event_handle (syscall_record, [eoe_record]) AUPARSE_CB_EVENT_READY
        init_state)
       = [build_app_data [(''type'', ''SYSCALL''), (''uid'', ''1000'')]
            (record_text syscall_record)]"
proof -
  have "(''type'', ''EOE'') \<in> set (first_field marked_record # next_fields marked_record)"
    by (simp add: marked_record_def)
  from record_body_marker [OF this, of s] two_records show ?thesis
    by (simp add: audit_event_handle_def syscall_event_def syscall_record_def)
qed

section \<open>A failing record ends the callback\<close>

text \<open>
  Claim C9 as stated fails. Let the first allocation fail
  (\<open>jalp_app_metadata_create\<close> returns null) and hand the callback an event of two
  records. The callback logs the failure and returns: the queue is empty and nothing
  else was done, so the second record was neither normalized nor offered to the
  queue, although the callback, called on it alone in the state the failure left,
  enqueues its event.
\<close>

theorem later_records_counterexample:
  "event_queue (audit_event_handle (syscall_record, [path_record]) AUPARSE_CB_EVENT_READY
       failing_alloc) = []
   \<and> effects (audit_event_handle (syscall_record, [path_record]) AUPARSE_CB_EVENT_READY
       failing_alloc) = [Syslog ''failure creating JALP application metadata'']
   \<and> event_queue (audit_event_handle (path_record, []) AUPARSE_CB_EVENT_READY
       (snd (record_body syscall_record failing_alloc))) = [path_event]"
  by (simp add: audit_event_handle_def record_body_def alloc_def field_body_def
      syscall_record_def path_record_def failing_alloc_def init_state_def enqueue_def
      push_event_def g_queue_get_length_def g_queue_push_tail_def Let_def path_event_def
      syslog_def)

text \<open>
  Claim C9 as amended. A failure in one record (an allocation or construction failure,
  the end-of-event marker, or a full queue after the timed wait) takes \<open>goto out\<close>, which
  leaves the callback: the state in which the callback returns is the state at the
  failure, whatever records come later in the same event, so none of them is normalized
  or offered to the queue. This holds for a failure in the first record and for a
  failure after records that were processed without failure; their events stay in the
  queue. The failing record itself adds nothing to the queue (the queue at the failure
  is the queue before the record, less what the sender thread took meanwhile).
\<close>

theorem callback_returns_at_first_failure:
  "(record_body r s1 = (False, s2) \<longrightarrow>
      audit_event_handle (r, later) AUPARSE_CB_EVENT_READY s1 = s2
      \<and> (\<exists>k. event_queue s2 = drop k (event_queue s1)))
   \<and> (records_loop p ps s = (True, s1) \<and> record_body r s1 = (False, s2) \<longrightarrow>
      audit_event_handle (p, ps @ r # later) AUPARSE_CB_EVENT_READY s = s2)"
  using record_body_failure_drop [of r s1 s2]
  by (auto simp: audit_event_handle_def records_loop_failure records_loop_append)

theorem callback_returns_at_first_failure_witness:
  "fst (records_loop syscall_record [] late_failing_alloc)
   \<and> \<not> fst (record_body path_record (snd (records_loop syscall_record [] late_failing_alloc)))
   \<and> audit_event_handle (syscall_record, [path_record, syscall_record]) AUPARSE_CB_EVENT_READY
        late_failing_alloc
       = snd (record_body path_record (snd (records_loop syscall_record [] late_failing_alloc)))
   \<and> event_queue (audit_event_handle (syscall_record, [path_record, syscall_record])
        AUPARSE_CB_EVENT_READY late_failing_alloc) = [syscall_event]"
proof -
  let ?s1 = "snd (records_loop syscall_record [] late_failing_alloc)"
  let ?s2 = "snd (record_body path_record ?s1)"
  have a: "records_loop syscall_record [] late_failing_alloc = (True, ?s1)"
    using run_late_failure by (simp add: prod_eq_iff)
  have b: "record_body path_record ?s1 = (False, ?s2)"
    using run_late_failure by (simp add: prod_eq_iff)
  from callback_returns_at_first_failure
    [of path_record ?s1 ?s2 "[syscall_record]" syscall_record "[]" late_failing_alloc] a b
  have "audit_event_handle (syscall_record, [] @ path_record # [syscall_record])
          AUPARSE_CB_EVENT_READY late_failing_alloc = ?s2"
    by blast
  with run_late_failure show ?thesis by simp
qed

section \<open>Settings that the configuration file leaves out\<close>

text \<open>
  Claim C10. The settings start as 0 (statistics off), 60 (seconds between statistics)
  and 10000 (queue capacity). When \<open>printstats\<close>, \<open>printstatsfreq\<close> or \<open>queuemaxlength\<close>
  is absent from the configuration, \<open>config_load\<close> leaves the corresponding variable at
  the value it had before the load, in the build for libconfig 1.4 and later as in the
  build for older versions, and so does the whole load block of \<open>main\<close>: a reload never
  puts an absent setting back to its initial value.
\<close>

theorem absent_setting_is_retained:
  "print_stats init_state = 0 \<and> print_stats_freq init_state = 60
   \<and> queue_max_length init_state = 10000
   \<and> (int_settings c PRINTSTATS = None \<longrightarrow>
        print_stats (snd (config_load (Some c) s)) = print_stats s)
   \<and> (int_settings c PRINTSTATSFREQ = None \<longrightarrow>
        print_stats_freq (snd (config_load (Some c) s)) = print_stats_freq s)
   \<and> (int_settings c QUEUEMAXLENGTH = None \<longrightarrow>
        queue_max_length (snd (config_load (Some c) s)) = queue_max_length s)
   \<and> (long_settings c PRINTSTATS = None \<longrightarrow>
        print_stats (snd (config_load_legacy (Some c) s)) = print_stats s)
   \<and> (long_settings c PRINTSTATSFREQ = None \<longrightarrow>
        print_stats_freq (snd (config_load_legacy (Some c) s)) = print_stats_freq s)
   \<and> (long_settings c QUEUEMAXLENGTH = None \<longrightarrow>
        queue_max_length (snd (config_load_legacy (Some c) s)) = queue_max_length s)
   \<and> (int_settings (config_file env) PRINTSTATS = None \<longrightarrow>
        print_stats (block_state (load_block env (l, s))) = print_stats s)
   \<and> (int_settings (config_file env) PRINTSTATSFREQ = None \<longrightarrow>
        print_stats_freq (block_state (load_block env (l, s))) = print_stats_freq s)
   \<and> (int_settings (config_file env) QUEUEMAXLENGTH = None \<longrightarrow>
        queue_max_length (block_state (load_block env (l, s))) = queue_max_length s)"
  by (simp add: config_load_frame config_load_legacy_frame load_block_settings init_state_def)

theorem absent_setting_is_retained_witness:
  "int_settings capacity_only_config PRINTSTATS = None
   \<and> int_settings capacity_only_config PRINTSTATSFREQ = None
   \<and> print_stats (snd (config_load (Some capacity_only_config) init_state)) = 0
   \<and> print_stats_freq (snd (config_load (Some capacity_only_config) init_state)) = 60
   \<and> queue_max_length (snd (config_load (Some capacity_only_config) init_state)) = 500
   \<and> print_stats (snd (config_load_legacy (Some capacity_only_config) init_state)) = 0
   \<and> print_stats_freq (snd (config_load_legacy (Some capacity_only_config) init_state)) = 60"
proof -
  have a: "int_settings capacity_only_config PRINTSTATS = None"
    "int_settings capacity_only_config PRINTSTATSFREQ = None"
    "long_settings capacity_only_config PRINTSTATS = None"
    "long_settings capacity_only_config PRINTSTATSFREQ = None"
    by (simp_all add: capacity_only_config_def PRINTSTATS_def PRINTSTATSFREQ_def
        QUEUEMAXLENGTH_def)
  have b: "queue_max_length (snd (config_load (Some capacity_only_config) init_state)) = 500"
    by (simp add: config_load_def config_lookup_int_def capacity_only_config_def
        CONFIG_TRUE_def)
  from absent_setting_is_retained [of capacity_only_config init_state] a b show ?thesis
    by simp
qed

section \<open>Reloading\<close>

text \<open>
  Claim C8. One pass through the load block of \<open>main\<close> (load the configuration, destroy
  and rebuild the JALoP context, cancel the threads of the previous cycle, start the
  sender thread and, if asked for, the statistics thread, set the status to \<open>RUN\<close>)
  leaves the event queue and the high-water mark exactly as they were, whether the
  block reaches its end or leaves by \<open>goto out\<close>. When it reaches its end the status is
  \<open>RUN\<close>, the context is set and the last threads created are the new ones.
\<close>

theorem reload_leaves_queue_unchanged:
  "(case load_block env (l, s) of
      Goto_out (l', s') \<Rightarrow>
        event_queue s' = event_queue s \<and> queue_max_length_seen s' = queue_max_length_seen s
    | Falls_through (l', s') \<Rightarrow>
        event_queue s' = event_queue s \<and> queue_max_length_seen s' = queue_max_length_seen s
        \<and> status s' = RUN \<and> main_ctx l' \<noteq> None
        \<and> (\<exists>pre. effects s' = pre @ [Pthread_create Send_ls_thread]
              \<or> effects s' = pre @ [Pthread_create Send_ls_thread,
                   Pthread_create Print_stats_thread]))"
  by (simp add: load_block_def config_load_def syslog_def emit_def Let_def
      split: prod.split)

text \<open>
  Claim C2 does not hold of the code. When the configuration file cannot be read,
  \<open>config_read_file\<close> returns \<open>CONFIG_FALSE\<close>, which is 0; \<open>config_load\<close> logs the failure
  and returns that 0; \<open>main\<close> aborts only on \<open>rc < 0\<close>. So the load block does not take
  \<open>goto out\<close>: it goes on with the configuration it could not read, builds the context,
  starts the sender thread and sets the status to \<open>RUN\<close>.
\<close>

theorem unreadable_config_is_not_fatal:
  "fst (config_load (Some (config_file unreadable_config_env)) init_state) = 0
   \<and> load_block unreadable_config_env (start_locals, init_state)
     = Falls_through
        (start_locals\<lparr>main_rc := JAL_OK, main_ctx := Some jalp_context_create\<rparr>,
         init_state\<lparr>effects := [Syslog ''loading config'',
            Syslog ''failure reading config file, rc: %d, %s, line: %d'',
            Jalp_context_destroy, Config_destroy, Pthread_create Send_ls_thread]\<rparr>)"
  by (simp add: load_block_def config_load_def context_init_def unreadable_config_env_def
      default_load_env_def start_locals_def init_state_def syslog_def emit_def Let_def
      jalp_context_create_def CONFIG_TRUE_def CONFIG_FALSE_def JAL_OK_def RUN_def RELOAD_def)

section \<open>End of input\<close>

text \<open>
  Claim C3 does not hold of the code. With standard input at end of file and the status
  \<open>RUN\<close>, \<open>read\<close> returns 0 and the inner loop is left by \<open>break\<close> with \<open>rc = 0\<close>; but the
  condition of the outer loop, \<open>status == RUN || status == RELOAD\<close>, still holds, so the
  outer loop goes round again, for ever: whatever the number of passes allowed, \<open>main\<close>
  has not returned.
\<close>

theorem main_never_exits_at_eof: "main n eof_main_env init_state = None"
proof (cases n)
  case 0
  then show ?thesis by (simp add: main_def eof_main_env_def JAL_OK_def)
next
  case (Suc k)
  let ?l = "start_locals\<lparr>main_rc := JAL_OK, main_ctx := Some jalp_context_create\<rparr>"
  let ?s = "init_state\<lparr>effects := [Syslog ''loading config'',
            Jalp_context_destroy, Config_destroy, Pthread_create Send_ls_thread]\<rparr>"
  have run: "status ?s = RUN" by (simp add: init_state_def)
  have ctx: "main_ctx (?l\<lparr>main_rc := 0, read_size := 0\<rparr>) \<noteq> None" by simp
  from main_loop_eof [OF run ctx, of k "[]"]
  have rest: "main_loop k [] [] (?l\<lparr>main_rc := 0, read_size := 0\<rparr>, ?s) = None" .
  have load: "status init_state = RELOAD \<or> main_ctx (start_locals\<lparr>read_size := 1\<rparr>) = None"
    by (simp add: start_locals_def)
  have "main_loop (Suc k) [] [] (start_locals, init_state) = None"
    unfolding main_loop.simps Let_def prod.case if_P [OF load] list.case first_load
      block_end.case inner_loop_eof [OF run, of ?l]
    using run rest by simp
  with Suc show ?thesis
    by (simp add: main_def eof_main_env_def start_locals_def JAL_OK_def)
qed

end
